theory Spec2Isabelle
  imports Complex_Main "HOL-Library.Sublist" "HOL-Library.AList"
begin

section \<open>Python text primitives\<close>

text \<open>
  A Python \<open>str\<close> is modelled as a \<^typ>\<open>string\<close> whose characters are the code points
  0 to 255. The character classes below are those of \<open>str.isspace\<close>, \<open>str.splitlines\<close>,
  \<open>str.lower\<close> and of the patterns \<open>\s\<close>, \<open>\d\<close>, \<open>\w\<close> of the \<open>re\<close> module on
  that range. \<open>s.startswith(p)\<close> is \<^term>\<open>prefix p s\<close>, \<open>s.endswith(p)\<close> is
  \<^term>\<open>suffix p s\<close> and \<open>p in s\<close> is \<^term>\<open>sublist p s\<close>.
\<close>

definition is_space :: "char \<Rightarrow> bool" where
  "is_space c =
     (let n = (of_char c :: nat)
      in (9 \<le> n \<and> n \<le> 13) \<or> (28 \<le> n \<and> n \<le> 32) \<or> n = 133 \<or> n = 160)"

definition is_linebreak :: "char \<Rightarrow> bool" where
  "is_linebreak c =
     (let n = (of_char c :: nat)
      in (10 \<le> n \<and> n \<le> 13) \<or> (28 \<le> n \<and> n \<le> 30) \<or> n = 133)"

definition is_digit :: "char \<Rightarrow> bool" where
  "is_digit c = (let n = (of_char c :: nat) in 48 \<le> n \<and> n \<le> 57)"

definition is_word :: "char \<Rightarrow> bool" where
  "is_word c =
     (let n = (of_char c :: nat)
      in (48 \<le> n \<and> n \<le> 57) \<or> (65 \<le> n \<and> n \<le> 90) \<or> n = 95 \<or> (97 \<le> n \<and> n \<le> 122)
         \<or> n = 170 \<or> n = 178 \<or> n = 179 \<or> n = 181 \<or> n = 185 \<or> n = 186
         \<or> (188 \<le> n \<and> n \<le> 190) \<or> (192 \<le> n \<and> n \<le> 214) \<or> (216 \<le> n \<and> n \<le> 246)
         \<or> 248 \<le> n)"

definition lower_char :: "char \<Rightarrow> char" where
  "lower_char c =
     (let n = (of_char c :: nat)
      in if (65 \<le> n \<and> n \<le> 90) \<or> (192 \<le> n \<and> n \<le> 214) \<or> (216 \<le> n \<and> n \<le> 222)
         then char_of (n + 32) else c)"

definition lower :: "string \<Rightarrow> string" where
  "lower s = map lower_char s"

definition strip :: "string \<Rightarrow> string" where
  "strip s = rev (dropWhile is_space (rev (dropWhile is_space s)))"

text \<open>
  \<open>str.splitlines()\<close>: the text is cut at every line boundary, \<open>\r\n\<close> counting as one;
  the boundaries are dropped and a final boundary opens no empty last line.
\<close>

fun splitlines_from :: "string \<Rightarrow> string \<Rightarrow> string list" where
  "splitlines_from cur [] = (if cur = [] then [] else [cur])"
| "splitlines_from cur [c] =
     (if is_linebreak c then [cur] else [cur @ [c]])"
| "splitlines_from cur (c # d # cs) =
     (if c = CHR 0x0D \<and> d = CHR 0x0A then cur # splitlines_from [] cs
      else if is_linebreak c then cur # splitlines_from [] (d # cs)
      else splitlines_from (cur @ [c]) (d # cs))"

definition splitlines :: "string \<Rightarrow> string list" where
  "splitlines s = splitlines_from [] s"

text \<open>\<open>s.split(",")\<close>: the pieces between commas; always at least one piece.\<close>

fun split_from :: "char \<Rightarrow> string \<Rightarrow> string \<Rightarrow> string list" where
  "split_from sep cur [] = [cur]"
| "split_from sep cur (c # cs) =
     (if c = sep then cur # split_from sep [] cs else split_from sep (cur @ [c]) cs)"

definition split :: "char \<Rightarrow> string \<Rightarrow> string list" where
  "split sep s = split_from sep [] s"

text \<open>\<open>sep.join(xs)\<close>.\<close>

fun join :: "string \<Rightarrow> string list \<Rightarrow> string" where
  "join sep [] = []"
| "join sep [x] = x"
| "join sep (x # y # ys) = x @ sep @ join sep (y # ys)"

text \<open>\<open>str(n)\<close> of an integer, as used by the f-strings.\<close>

fun str_nat :: "nat \<Rightarrow> string" where
  "str_nat n =
     (if n < 10 then [char_of (48 + n)] else str_nat (n div 10) @ [char_of (48 + n mod 10)])"

definition str_int :: "int \<Rightarrow> string" where
  "str_int i = (if i < 0 then CHR ''-'' # str_nat (nat (- i)) else str_nat (nat i))"

text \<open>
  Truthiness of an optional string (\<open>None\<close> and \<open>""\<close> are falsy) and the operator
  \<open>a or b\<close> on such values.
\<close>

definition truthy :: "string option \<Rightarrow> bool" where
  "truthy x = (case x of None \<Rightarrow> False | Some s \<Rightarrow> s \<noteq> [])"

definition por :: "string option \<Rightarrow> string option \<Rightarrow> string option" where
  "por a b = (if truthy a then a else b)"

section \<open>Python floats\<close>

text \<open>
  A float is a double of IEEE 754, modelled as the rational number it stands for. Every
  operation gives the double nearest to the exact result, a tie going to the even
  mantissa: a mantissa of 53 bits, below the normal range a multiple of \<open>2^-1074\<close>.
  (Overflow is not modelled: no count of list elements reaches \<open>2^1024\<close>.)
\<close>

function bits :: "int \<Rightarrow> nat" where
  "bits i = (if i \<le> 0 then 0 else Suc (bits (i div 2)))"
  by pat_completeness auto
termination
  by (relation "measure nat") auto

declare bits.simps [simp del]

definition pow2 :: "int \<Rightarrow> rat" where
  "pow2 e = (if 0 \<le> e then 2 ^ nat e else 1 / 2 ^ nat (- e))"

text \<open>The exponent of a positive number: the \<open>e\<close> with \<open>2^e \<le> x < 2^(e+1)\<close>, found from the
  lengths in bits of numerator and denominator.\<close>

definition floor_log2 :: "rat \<Rightarrow> int" where
  "floor_log2 x =
     (let d = int (bits (fst (quotient_of x))) - int (bits (snd (quotient_of x)))
      in if pow2 d \<le> x then d else d - 1)"

definition round_half_even :: "rat \<Rightarrow> int" where
  "round_half_even y =
     (let f = \<lfloor>y\<rfloor>; d = y - of_int f
      in if d < 1 / 2 then f else if 1 / 2 < d then f + 1 else if even f then f else f + 1)"

definition round_to_double :: "rat \<Rightarrow> rat" where
  "round_to_double x =
     (if x = 0 then 0
      else
        let e = max (floor_log2 \<bar>x\<bar> - 52) (- 1074)
        in sgn x * of_int (round_half_even (\<bar>x\<bar> / pow2 e)) * pow2 e)"

text \<open>\<open>a / b\<close> on two integers (the divisor is not zero where it is used), \<open>x * y\<close> on two
  floats, and \<open>round(x, 2)\<close>: the double nearest to the decimal with two places that is
  nearest to \<open>x\<close>, a tie going to the even digit.\<close>

definition int_truediv :: "nat \<Rightarrow> nat \<Rightarrow> rat" where
  "int_truediv a b = round_to_double (of_nat a / of_nat b)"

definition float_mul :: "rat \<Rightarrow> rat \<Rightarrow> rat" where
  "float_mul x y = round_to_double (x * y)"

definition round2 :: "rat \<Rightarrow> rat" where
  "round2 x = round_to_double (of_int (round_half_even (x * 100)) / 100)"

section \<open>The manifest parser of main/app.py\<close>

record channel =
  id' :: "string option"
  name :: "string option"
  tvg_name :: "string option"
  tvg_id :: "string option"
  tvg_logo :: "string option"
  group :: "string option"
  language :: "string option"
  country :: "string option"
  url :: "string option"

subsection \<open>The two patterns\<close>

text \<open>
  \<open>EXTINF_RE = #EXTINF:-?\d+(?:\s+(.+))?,(.*)$\<close>, used with \<open>match\<close> on a stripped line
  (which holds no line break, so \<open>.\<close> matches every character of it).

  After the digits the matcher first tries the optional group. \<open>\s+\<close> is greedy and gives
  white space back one character at a time; \<open>(.+)\<close> is greedy and gives characters back
  until a comma follows, so group 1 ends at the last comma of the rest and group 2 is
  what follows that comma. When the optional group cannot match, a comma must follow the
  digits at once and group 2 is the rest of the line.
\<close>

fun last_comma_split :: "string \<Rightarrow> (string \<times> string) option" where
  "last_comma_split [] = None"
| "last_comma_split (c # cs) =
     (case last_comma_split cs of
        Some (a, b) \<Rightarrow> Some (c # a, b)
      | None \<Rightarrow> if c = CHR '','' then Some ([], cs) else None)"

definition dot_plus_comma :: "string \<Rightarrow> (string \<times> string) option" where
  "dot_plus_comma t =
     (case last_comma_split t of
        None \<Rightarrow> None
      | Some (a, b) \<Rightarrow> if a = [] then None else Some (a, b))"

fun ws_backtrack :: "nat \<Rightarrow> string \<Rightarrow> (string \<times> string) option" where
  "ws_backtrack 0 t = None"
| "ws_backtrack (Suc k) t =
     (case dot_plus_comma (drop (Suc k) t) of
        Some r \<Rightarrow> Some r
      | None \<Rightarrow> ws_backtrack k t)"

definition EXTINF_RE_match :: "string \<Rightarrow> (string option \<times> string) option" where
  "EXTINF_RE_match line =
     (if \<not> prefix ''#EXTINF:'' line then None
      else
        let r0 = drop 8 line;
            r1 = (if prefix ''-'' r0 then drop 1 r0 else r0);
            ds = takeWhile is_digit r1;
            r2 = dropWhile is_digit r1
        in if ds = [] then None
           else (case ws_backtrack (length (takeWhile is_space r2)) r2 of
                   Some (g1, g2) \<Rightarrow> Some (Some g1, g2)
                 | None \<Rightarrow>
                     (case r2 of
                        [] \<Rightarrow> None
                      | c # cs \<Rightarrow> if c = CHR '','' then Some (None, cs) else None)))"

text \<open>
  \<open>ATTR_RE = ([\w-]+?)="([^"]*)"\<close>, used with \<open>finditer\<close>: at a position the key is the
  run of word characters and hyphens up to \<open>="\<close>, the value the run of characters
  up to the closing quote; a position where that fails is passed over, and the
  search goes on after each match.
\<close>

definition is_keychar :: "char \<Rightarrow> bool" where
  "is_keychar c = (is_word c \<or> c = CHR ''-'')"

definition ATTR_RE_at :: "string \<Rightarrow> ((string \<times> string) \<times> string) option" where
  \<open>ATTR_RE_at s =
     (let k = takeWhile is_keychar s;
          r = dropWhile is_keychar s
      in if k = [] \<or> \<not> prefix ''="'' r then None
         else (case dropWhile (\<lambda>c. c \<noteq> CHR 0x22) (drop 2 r) of
                 [] \<Rightarrow> None
               | q # rest \<Rightarrow> Some ((k, takeWhile (\<lambda>c. c \<noteq> CHR 0x22) (drop 2 r)), rest)))\<close>

lemma ATTR_RE_at_shorter:
  assumes "ATTR_RE_at s = Some (kv, rest)"
  shows "length rest < length s"
proof -
  let ?r = "dropWhile is_keychar s"
  let ?v = "dropWhile (\<lambda>c. c \<noteq> CHR 0x22) (drop 2 ?r)"
  from assms obtain q where v: "?v = q # rest"
    by (auto simp: ATTR_RE_at_def Let_def split: if_splits list.splits)
  have "length ?v \<le> length (drop 2 ?r)"
    by (rule length_dropWhile_le)
  also have "\<dots> \<le> length ?r" by simp
  also have "\<dots> \<le> length s" by (rule length_dropWhile_le)
  finally show ?thesis using v by simp
qed

function ATTR_RE_finditer :: "string \<Rightarrow> (string \<times> string) list" where
  "ATTR_RE_finditer [] = []"
| "ATTR_RE_finditer (c # cs) =
     (case ATTR_RE_at (c # cs) of
        Some (kv, rest) \<Rightarrow> kv # ATTR_RE_finditer rest
      | None \<Rightarrow> ATTR_RE_finditer cs)"
  by pat_completeness auto
termination
proof (relation "measure length")
  fix c cs x2 x y
  assume "ATTR_RE_at (c # cs) = Some x2" "(x, y) = x2"
  then have "ATTR_RE_at (c # cs) = Some (x, y)" by simp
  then have "length y < length (c # cs)" by (rule ATTR_RE_at_shorter)
  then show "(y, c # cs) \<in> measure length" by simp
qed simp_all

subsection \<open>parse_m3u_index\<close>

text \<open>
  The attribute dictionary of a metadata line and its display name (lines 313 to 322):
  \<open>attrs[k] = v\<close> for every match in turn, so a later key overwrites an earlier one.
  When the line does not match \<open>EXTINF_RE\<close> the dictionary is empty and the display
  name is \<open>None\<close>.
\<close>

definition attrs_of :: "(string \<times> string) list \<Rightarrow> (string \<rightharpoonup> string)" where
  "attrs_of kvs = fold (\<lambda>(k, v) m. m(k \<mapsto> v)) kvs Map.empty"

definition extinf_attrs :: "string \<Rightarrow> (string \<rightharpoonup> string)" where
  "extinf_attrs line =
     (case EXTINF_RE_match line of
        None \<Rightarrow> Map.empty
      | Some (g1, g2) \<Rightarrow>
          attrs_of (ATTR_RE_finditer (case g1 of None \<Rightarrow> [] | Some raw_attrs \<Rightarrow> raw_attrs)))"

definition extinf_display_name :: "string \<Rightarrow> string option" where
  "extinf_display_name line =
     (case EXTINF_RE_match line of
        None \<Rightarrow> None
      | Some (g1, g2) \<Rightarrow> Some (strip g2))"

definition make_item :: "string \<Rightarrow> string \<Rightarrow> channel" where
  "make_item line u =
     (let attrs = extinf_attrs line;
          last_name = extinf_display_name line
      in \<lparr> id' = por (attrs ''tvg-id'') (por (attrs ''id'') None),
           name = por (attrs ''tvg-name'') (por last_name None),
           tvg_name = por (attrs ''tvg-name'') (por last_name None),
           tvg_id = por (attrs ''tvg-id'') None,
           tvg_logo = por (attrs ''tvg-logo'') None,
           group = por (attrs ''group-title'') (por (attrs ''group'') None),
           language = por (attrs ''tvg-language'') (por (attrs ''language'') None),
           country = por (attrs ''tvg-country'') (por (attrs ''country'') None),
           url = Some (strip u) \<rparr>)"

text \<open>
  The inner loop over \<open>j\<close> passes over every line that is empty or starts with \<open>#\<close>.
\<close>

definition is_skipped :: "string \<Rightarrow> bool" where
  "is_skipped l = (l = [] \<or> prefix ''#'' l)"

text \<open>
  The outer loop, on the lines from index \<open>i\<close> on. At a metadata line the first line
  after it that is not skipped becomes the URL and the loop goes on after that line;
  when there is none, the loop goes on with the next line.
\<close>

function parse_lines :: "string list \<Rightarrow> channel list" where
  "parse_lines [] = []"
| "parse_lines (line # rest) =
     (if prefix ''#EXTINF'' line then
        (case dropWhile is_skipped rest of
           [] \<Rightarrow> parse_lines rest
         | u # rest' \<Rightarrow> make_item line u # parse_lines rest')
      else parse_lines rest)"
  by pat_completeness auto
termination
proof (relation "measure length")
  fix line rest u rest'
  assume "dropWhile is_skipped rest = u # rest'"
  moreover have "length (dropWhile is_skipped rest) \<le> length rest"
    by (rule length_dropWhile_le)
  ultimately show "(rest', line # rest) \<in> measure length" by simp
qed simp_all

definition parse_m3u_index :: "string \<Rightarrow> channel list" where
  "parse_m3u_index text = parse_lines (map strip (splitlines text))"

section \<open>The manifest parser of Backend/app.py\<close>

record m3u_channel =
  m3u_name :: string
  m3u_logo :: "string option"
  m3u_url :: string
  m3u_tvg_language :: "string option"
  m3u_tvg_country :: "string option"
  m3u_group_title :: "string option"

text \<open>
  This file's \<open>ATTR_RE = (\w[\w-]*)="(.*?)"\<close>, used with \<open>findall\<close> on a line: as above,
  but a key starts with a word character, so a position holding a hyphen is passed over.
\<close>

definition m3u_ATTR_RE_at :: "string \<Rightarrow> ((string \<times> string) \<times> string) option" where
  "m3u_ATTR_RE_at s =
     (case s of
        [] \<Rightarrow> None
      | c # cs \<Rightarrow> if is_word c then ATTR_RE_at s else None)"

function m3u_ATTR_RE_findall :: "string \<Rightarrow> (string \<times> string) list" where
  "m3u_ATTR_RE_findall [] = []"
| "m3u_ATTR_RE_findall (c # cs) =
     (case m3u_ATTR_RE_at (c # cs) of
        Some (kv, rest) \<Rightarrow> kv # m3u_ATTR_RE_findall rest
      | None \<Rightarrow> m3u_ATTR_RE_findall cs)"
  by pat_completeness auto
termination
proof (relation "measure length")
  fix c cs x2 x y
  assume "m3u_ATTR_RE_at (c # cs) = Some x2" "(x, y) = x2"
  then have "ATTR_RE_at (c # cs) = Some (x, y)"
    by (simp add: m3u_ATTR_RE_at_def split: if_splits)
  then have "length y < length (c # cs)" by (rule ATTR_RE_at_shorter)
  then show "(y, c # cs) \<in> measure length" by simp
qed simp_all

text \<open>
  The dictionary comprehension \<open>{k.lower(): v for k, v in ATTR_RE.findall(line)}\<close>, the
  name taken from a metadata line (lines 33 to 36) and the loop over the lines, whose
  state is \<open>attrs\<close>, \<open>name\<close> and \<open>logo\<close>.
\<close>

definition m3u_attrs :: "string \<Rightarrow> (string \<rightharpoonup> string)" where
  "m3u_attrs line = attrs_of (map (\<lambda>(k, v). (lower k, v)) (m3u_ATTR_RE_findall line))"

definition m3u_line_name :: "string \<Rightarrow> string option" where
  "m3u_line_name line =
     (if CHR '','' \<in> set line
      then Some (strip (drop 1 (dropWhile (\<lambda>c. c \<noteq> CHR '','') line)))
      else por (m3u_attrs line ''tvg-name'') (por (m3u_attrs line ''tvg-id'') (Some ''Unknown'')))"

fun m3u_loop ::
  "(string \<rightharpoonup> string) \<Rightarrow> string option \<Rightarrow> string option \<Rightarrow> string list \<Rightarrow> m3u_channel list"
where
  "m3u_loop attrs nm logo [] = []"
| "m3u_loop attrs nm logo (line # rest) =
     (if prefix ''#EXTINF:'' line then
        m3u_loop (m3u_attrs line) (m3u_line_name line) (m3u_attrs line ''tvg-logo'') rest
      else if prefix ''http'' line then
        \<lparr> m3u_name = (case nm of None \<Rightarrow> ''Unknown''
                      | Some n \<Rightarrow> if n = [] then ''Unknown'' else n),
          m3u_logo = logo,
          m3u_url = line,
          m3u_tvg_language = attrs ''tvg-language'',
          m3u_tvg_country = attrs ''tvg-country'',
          m3u_group_title = attrs ''group-title'' \<rparr>
        # m3u_loop Map.empty None None rest
      else m3u_loop attrs nm logo rest)"

definition parse_m3u :: "string \<Rightarrow> m3u_channel list" where
  "parse_m3u text =
     m3u_loop Map.empty None None
       (map strip (filter (\<lambda>l. strip l \<noteq> []) (splitlines text)))"

section \<open>The probe classifier\<close>

text \<open>
  \<open>re.search(r'CODECS="([^"]+)"', line)\<close>: group 1 of the leftmost place where
  \<open>CODECS="\<close> is followed by at least one character other than a quote and then a quote.
\<close>

fun CODECS_RE_search :: "string \<Rightarrow> string option" where
  "CODECS_RE_search [] = None"
| \<open>CODECS_RE_search (c # cs) =
     (let r = drop 8 (c # cs);
          v = takeWhile (\<lambda>x. x \<noteq> CHR 0x22) r
      in if prefix ''CODECS="'' (c # cs) \<and> v \<noteq> [] \<and> dropWhile (\<lambda>x. x \<noteq> CHR 0x22) r \<noteq> []
         then Some v
         else CODECS_RE_search cs)\<close>

definition line_codecs :: "string \<Rightarrow> string list" where
  "line_codecs line =
     (if prefix ''#EXT-X-STREAM-INF'' line then
        (case CODECS_RE_search line of
           None \<Rightarrow> []
         | Some g \<Rightarrow> map (\<lambda>c. lower (strip c)) (split (CHR '','') g))
      else [])"

definition codecs_found :: "string \<Rightarrow> string list" where
  "codecs_found s = concat (map line_codecs (splitlines s))"

definition ok_codec :: "string \<Rightarrow> bool" where
  "ok_codec c =
     (sublist ''avc'' c \<or> sublist ''h264'' c \<or> sublist ''mp4a'' c \<or> sublist ''aac'' c)"

definition has_playlist_marker :: "string \<Rightarrow> bool" where
  "has_playlist_marker s =
     (sublist ''#EXTM3U'' s \<or> sublist ''#EXTINF'' s \<or> sublist ''#EXT-X-STREAM-INF'' s)"

text \<open>
  The sample is a byte string, again a \<^typ>\<open>string\<close>. \<open>sample.decode(errors="ignore")\<close> is
  the interpreter's UTF-8 decoder; it is the parameter \<open>decode\<close>. The headers are the
  response's, looked up by lower-case name.
\<close>

definition playlist_verdict :: "string \<Rightarrow> bool \<times> string option" where
  "playlist_verdict s =
     (let found = codecs_found s
      in if found \<noteq> [] then
           (if filter ok_codec found \<noteq> []
            then (True, Some (''playlist with CODECS '' @ join '','' found))
            else (False, Some (''playlist with unrecognized CODECS '' @ join '','' found)))
         else (True, Some ''playlist markers present''))"

definition content_type :: "(string \<rightharpoonup> string) \<Rightarrow> string" where
  "content_type hdrs = lower (case hdrs ''content-type'' of None \<Rightarrow> [] | Some v \<Rightarrow> v)"

definition indicates_mpegurl :: "string \<Rightarrow> bool" where
  "indicates_mpegurl ct =
     (sublist ''mpegurl'' ct \<or> sublist ''vnd.apple.mpegurl'' ct
      \<or> sublist ''application/vnd.apple.mpegurl'' ct \<or> suffix ''m3u8'' ct)"

definition detect_hls_from_headers_and_sample ::
  "(string \<Rightarrow> string) \<Rightarrow> (string \<rightharpoonup> string) \<Rightarrow> string option \<Rightarrow> bool \<times> string option"
where
  "detect_hls_from_headers_and_sample decode hdrs sample =
     (let ct = content_type hdrs;
          fallback =
            (if sublist ''video'' ct
             then (False, Some (''content-type video but not m3u8 ('' @ ct @ '')''))
             else (False, None))
      in if indicates_mpegurl ct
         then (True, Some (''content-type indicates mpegurl ('' @ ct @ '')''))
         else (case sample of
                 None \<Rightarrow> fallback
               | Some b \<Rightarrow>
                   if b = [] then fallback
                   else if has_playlist_marker (decode b) then playlist_verdict (decode b)
                   else if prefix [CHR 0x00, CHR 0x00, CHR 0x00] (take 12 b)
                           \<and> sublist ''ftyp'' (take 64 b)
                   then (False, Some ''sample indicates fMP4/MP4 fragment (no playlist)'')
                   else fallback))"

section \<open>The channel prober\<close>

text \<open>
  A \<open>datetime\<close> is the integer count of microseconds since an epoch; \<open>isoformat\<close> and
  \<open>fromisoformat\<close> are inverse to each other, so \<open>last_checked\<close> holds the time itself.
\<close>

record validation =
  working :: bool
  hls_compatible :: bool
  last_checked :: "int option"
  check_error :: "string option"

record http_response =
  status_code :: int
  headers :: "string \<rightharpoonup> string"
  content :: string

datatype http_outcome = Raises string | Response http_response

record http_client =
  client_head :: "string \<Rightarrow> http_outcome"
  client_get :: "string \<Rightarrow> http_outcome"

text \<open>
  \<open>_head_or_get\<close>. Both requests sit in a \<open>try\<close> whose handler catches every
  \<open>Exception\<close>; the result type keeps \<open>Inl\<close> for an exception that would leave the
  function, which the caller handles.
\<close>

definition head_or_get ::
  "string \<Rightarrow> http_client \<Rightarrow> string + (int \<times> (string \<rightharpoonup> string) \<times> string option)"
where
  "head_or_get u client =
     (let by_head =
            (case client_head client u of
               Raises e \<Rightarrow> None
             | Response r \<Rightarrow>
                 if status_code r = 200 then Some (status_code r, headers r, None) else None)
      in case by_head of
           Some res \<Rightarrow> Inr res
         | None \<Rightarrow>
             (case client_get client u of
                Raises e \<Rightarrow> Inr (0, Map.empty, None)
              | Response r \<Rightarrow>
                  Inr (status_code r, headers r,
                       if content r \<noteq> [] then Some (take 4096 (content r)) else None)))"

text \<open>
  \<open>validate_channel_entry\<close>; \<open>now\<close> is what \<open>datetime.utcnow()\<close> returns after the
  requests.
\<close>

definition validate_channel_entry ::
  "(string \<Rightarrow> string) \<Rightarrow> channel \<Rightarrow> http_client \<Rightarrow> int \<Rightarrow> validation"
where
  "validate_channel_entry decode entry client now =
     (let result = \<lparr> working = False, hls_compatible = False,
                      last_checked = None, check_error = None \<rparr>
      in case url entry of
           None \<Rightarrow> result \<lparr> check_error := Some ''no url'' \<rparr>
         | Some u \<Rightarrow>
             if u = [] then result \<lparr> check_error := Some ''no url'' \<rparr>
             else
               (case head_or_get u client of
                  Inl e \<Rightarrow> result \<lparr> check_error := Some (''fetch error: '' @ e) \<rparr>
                | Inr (status, hdrs, sample) \<Rightarrow>
                    let result1 = result \<lparr> last_checked := Some now \<rparr>
                    in if status = 0 \<or> status \<ge> 400 then
                         result1 \<lparr> check_error := Some (''HTTP status '' @ str_int status),
                                   working := False \<rparr>
                       else
                         let result2 = result1 \<lparr> working := (200 \<le> status \<and> status < 400) \<rparr>;
                             verdict = detect_hls_from_headers_and_sample decode hdrs sample;
                             result3 = result2 \<lparr> hls_compatible := fst verdict \<rparr>;
                             reason = snd verdict
                         in if truthy reason then
                              result3 \<lparr> check_error :=
                                (if \<not> truthy (check_error result3) then reason
                                 else Some (the (check_error result3) @ ''; '' @ the reason)) \<rparr>
                            else result3))"

section \<open>The caches\<close>

text \<open>
  \<open>_channels_cache\<close>. The dictionary \<open>validated_map\<close> is an association list with one
  pair for each key, in insertion order; \<open>d[k] = v\<close> is \<^term>\<open>AList.update k v d\<close>,
  \<open>d.get(k)\<close> is \<^term>\<open>map_of d k\<close> and \<open>len(d)\<close> is \<^term>\<open>length d\<close>. A key is
  what \<open>.get("url")\<close> returned, a string or \<open>None\<close>.
\<close>

type_synonym validated = "(string option \<times> validation) list"

record channels_cache =
  items :: "channel list option"
  last_loaded :: "int option"
  validated_map :: validated

text \<open>
  The remote manifest source: what a GET of an address returns (\<open>Inl\<close> is the
  exception raised by the request or by \<open>raise_for_status\<close>), and the log of the
  addresses requested so far.
\<close>

record network =
  respond :: "string \<Rightarrow> string + string"
  requests :: "string list"

record validation_job =
  running :: bool
  started_at :: "int option"
  finished_at :: "int option"
  total :: nat
  validated :: nat
  errors :: nat
  progress :: rat

text \<open>
  The state of the process: the two module-level dictionaries, the network and the
  background tasks created and not yet started (each with its \<open>force_refresh\<close>).
\<close>

record system =
  job :: validation_job
  cache :: channels_cache
  net :: network
  scheduled :: "bool list"

definition CHANNEL_INDEX_URL :: string where
  "CHANNEL_INDEX_URL = ''https://iptv-org.github.io/iptv/index.m3u''"

definition CHANNEL_CACHE_TTL :: int where
  "CHANNEL_CACHE_TTL = 30 * 60 * 1000000"

definition CHANNEL_VALIDATE_CONCURRENCY :: nat where
  "CHANNEL_VALIDATE_CONCURRENCY = 10"

definition fetch_channel_index_text :: "network \<Rightarrow> (string + string) \<times> network" where
  "fetch_channel_index_text n =
     (respond n CHANNEL_INDEX_URL, n \<lparr> requests := requests n @ [CHANNEL_INDEX_URL] \<rparr>)"

text \<open>
  \<open>_load_channels\<close>; \<open>now\<close> is the time read for the freshness test, \<open>now'\<close> the time
  stored after parsing. An empty list and \<open>None\<close> are both falsy in the first test.
\<close>

definition load_channels ::
  "bool \<Rightarrow> int \<Rightarrow> int \<Rightarrow> system \<Rightarrow> (string + channel list) \<times> system"
where
  "load_channels force now now' sys =
     (let c = cache sys;
          cached =
            (case items c of
               None \<Rightarrow> None
             | Some its \<Rightarrow>
                 if its = [] then None
                 else (case last_loaded c of
                         None \<Rightarrow> None
                       | Some t \<Rightarrow>
                           if \<not> force \<and> now - t < CHANNEL_CACHE_TTL then Some its else None))
      in case cached of
           Some its \<Rightarrow> (Inr its, sys)
         | None \<Rightarrow>
             (case fetch_channel_index_text (net sys) of
                (Inl e, n') \<Rightarrow> (Inl e, sys \<lparr> net := n' \<rparr>)
              | (Inr txt, n') \<Rightarrow>
                  let parsed = parse_m3u_index txt
                  in (Inr parsed,
                      sys \<lparr> net := n',
                            cache := c \<lparr> items := Some parsed, last_loaded := Some now' \<rparr> \<rparr>)))"

section \<open>Validation of a page of channels\<close>

text \<open>
  What \<open>asyncio.gather(..., return_exceptions=True)\<close> yields for a task: its result, or
  the exception it raised (\<open>Inl\<close>, with the text of \<open>str\<close> of it). The tasks are calls of
  \<open>validate_channel_entry\<close>; the parameter \<open>probe\<close> is the outcome of that call for an
  entry.
\<close>

type_synonym gathered = "string + validation"

definition as_result :: "int \<Rightarrow> gathered \<Rightarrow> validation" where
  "as_result t candidate =
     (case candidate of
        Inl msg \<Rightarrow> \<lparr> working = False, hls_compatible = False,
                     last_checked = Some t, check_error = Some msg \<rparr>
      | Inr res \<Rightarrow> res)"

definition recently_validated :: "validated \<Rightarrow> string option \<Rightarrow> int \<Rightarrow> bool" where
  "recently_validated vm u now =
     (case map_of vm u of
        None \<Rightarrow> False
      | Some prev \<Rightarrow>
          (case last_checked prev of
             None \<Rightarrow> False
           | Some checked \<Rightarrow> now - checked < CHANNEL_CACHE_TTL))"

definition to_validate :: "validated \<Rightarrow> int \<Rightarrow> channel list \<Rightarrow> channel list" where
  "to_validate vm now entries =
     filter (\<lambda>e. truthy (url e) \<and> \<not> recently_validated vm (url e) now) entries"

text \<open>The second loop over the entries (lines 502 to 519), with its counter \<open>idx\<close>.\<close>

fun attach_results ::
  "int \<Rightarrow> gathered list \<Rightarrow> channel list \<Rightarrow> nat \<Rightarrow> validated \<Rightarrow> validated"
where
  "attach_results t results [] idx vm = vm"
| "attach_results t results (e # es) idx vm =
     (if \<not> truthy (url e) then attach_results t results es idx vm
      else if idx < length results then
        attach_results t results es (idx + 1)
          (AList.update (url e) (as_result t (results ! idx)) vm)
      else attach_results t results es idx vm)"

definition validate_channels_for_list ::
  "(channel \<Rightarrow> gathered) \<Rightarrow> int \<Rightarrow> int \<Rightarrow> channel list \<Rightarrow> system \<Rightarrow> system"
where
  "validate_channels_for_list probe now t entries sys =
     (let vm = validated_map (cache sys);
          tasks = to_validate vm now entries
      in if tasks = [] then sys
         else sys \<lparr> cache := (cache sys)
                \<lparr> validated_map := attach_results t (map probe tasks) entries 0 vm \<rparr> \<rparr>)"

section \<open>The bulk validation job\<close>

text \<open>
  The times read by one run: at the start, for the freshness test and the stamp of
  \<open>_load_channels\<close>, for the result that stands for an exception, and at the end.
\<close>

record clock =
  at_start :: int
  at_check :: int
  at_load :: int
  at_error :: int
  at_finish :: int

definition chunk_size :: nat where
  "chunk_size = max 10 (CHANNEL_VALIDATE_CONCURRENCY * 2)"

text \<open>
  The body of the loop over \<open>enumerate(results)\<close> (lines 582 to 593). The progress is
  computed in floats: the quotient of the two counts, then its product with 100.
\<close>

definition record_result :: "int \<Rightarrow> channel list \<Rightarrow> nat \<times> gathered \<Rightarrow> system \<Rightarrow> system" where
  "record_result t slice_items ires sys =
     (let i = fst ires;
          res = snd ires;
          key = (if i < length slice_items then url (slice_items ! i) else None);
          vm = AList.update key (as_result t res) (validated_map (cache sys));
          j = job sys;
          j' = (case res of
                  Inl msg \<Rightarrow> j \<lparr> errors := errors j + 1 \<rparr>
                | Inr r \<Rightarrow> if working r then j \<lparr> validated := validated j + 1 \<rparr> else j)
      in sys \<lparr> cache := (cache sys) \<lparr> validated_map := vm \<rparr>,
               job := j' \<lparr> progress := float_mul (int_truediv (length vm) (total j')) 100 \<rparr> \<rparr>)"

function chunks_loop ::
  "(channel \<Rightarrow> gathered) \<Rightarrow> int \<Rightarrow> channel list \<Rightarrow> channel list \<Rightarrow> nat \<Rightarrow> system \<Rightarrow> system"
where
  "chunks_loop probe t its tasks idx sys =
     (if idx < length tasks then
        let chunk = take chunk_size (drop idx tasks);
            results = map probe chunk;
            slice_items = take chunk_size (drop idx its)
        in chunks_loop probe t its tasks (idx + chunk_size)
             (fold (record_result t slice_items) (enumerate 0 results) sys)
      else sys)"
  by pat_completeness auto
termination
  by (relation "measure (\<lambda>(probe, t, its, tasks, idx, sys). length tasks - idx)")
     (auto simp: chunk_size_def)

declare chunks_loop.simps [simp del]

text \<open>The \<open>try\<close> block of \<open>validate_all_channels\<close>; the first component is the exception
  that leaves it, if any.\<close>

definition validate_all_body ::
  "bool \<Rightarrow> clock \<Rightarrow> (channel \<Rightarrow> gathered) \<Rightarrow> system \<Rightarrow> string option \<times> system"
where
  "validate_all_body force_refresh clk probe sys =
     (case load_channels force_refresh (at_check clk) (at_load clk) sys of
        (Inl e, sys') \<Rightarrow> (Some e, sys')
      | (Inr its, sys') \<Rightarrow>
          let urls = filter truthy (map url its);
              sys'' = sys' \<lparr> job := (job sys') \<lparr> total := length urls \<rparr> \<rparr>
          in if total (job sys'') = 0 then (None, sys'')
             else (None, chunks_loop probe (at_error clk) its
                           (filter (\<lambda>it. truthy (url it)) its) 0 sys''))"

text \<open>The assignments made under the lock (lines 546 to 552) and those of the
  \<open>finally\<close> block.\<close>

definition start_run :: "clock \<Rightarrow> system \<Rightarrow> system" where
  "start_run clk sys =
     sys \<lparr> job := (job sys)
             \<lparr> running := True, started_at := Some (at_start clk), finished_at := None,
               total := 0, validated := 0, errors := 0, progress := 0 \<rparr> \<rparr>"

definition finish_run :: "clock \<Rightarrow> system \<Rightarrow> system" where
  "finish_run clk sys =
     sys \<lparr> job := (job sys) \<lparr> running := False, finished_at := Some (at_finish clk) \<rparr> \<rparr>"

definition validate_all_channels ::
  "bool \<Rightarrow> clock \<Rightarrow> (channel \<Rightarrow> gathered) \<Rightarrow> system \<Rightarrow> string option \<times> system"
where
  "validate_all_channels force_refresh clk probe sys =
     (if running (job sys) then (None, sys)
      else
        let r = validate_all_body force_refresh clk probe (start_run clk sys)
        in (fst r, finish_run clk (snd r)))"

subsection \<open>The two endpoints\<close>

datatype http_error = HTTPException nat string

record start_ack =
  started :: bool
  ack_started_at :: int

definition trigger_validate_all :: "bool \<Rightarrow> int \<Rightarrow> system \<Rightarrow> (http_error + start_ack) \<times> system" where
  "trigger_validate_all force_refresh now sys =
     (if running (job sys) then (Inl (HTTPException 409 ''validation already running''), sys)
      else (Inr \<lparr> started = True, ack_started_at = now \<rparr>,
            sys \<lparr> scheduled := scheduled sys @ [force_refresh] \<rparr>))"

record status_report =
  status_running :: bool
  status_started_at :: "int option"
  status_finished_at :: "int option"
  status_total :: nat
  status_validated :: nat
  status_errors :: nat
  progress_percent :: rat
  validated_map_size :: nat

definition validate_status :: "system \<Rightarrow> status_report" where
  "validate_status sys =
     \<lparr> status_running = running (job sys),
       status_started_at = started_at (job sys),
       status_finished_at = finished_at (job sys),
       status_total = total (job sys),
       status_validated = validated (job sys),
       status_errors = errors (job sys),
       progress_percent = round2 (progress (job sys)),
       validated_map_size = length (validated_map (cache sys)) \<rparr>"

subsection \<open>The state at start-up\<close>

text \<open>The values the module gives \<open>_validation_job\<close> and \<open>_channels_cache\<close> when it is loaded.\<close>

definition initial_job :: validation_job where
  "initial_job =
     \<lparr> running = False, started_at = None, finished_at = None,
       total = 0, validated = 0, errors = 0, progress = 0 \<rparr>"

definition initial_cache :: channels_cache where
  "initial_cache = \<lparr> items = None, last_loaded = None, validated_map = [] \<rparr>"

definition initial_system :: "network \<Rightarrow> system" where
  "initial_system n = \<lparr> job = initial_job, cache = initial_cache, net = n, scheduled = [] \<rparr>"

text \<open>A channel entry that holds a URL and nothing else.\<close>

definition entry_with_url :: "string \<Rightarrow> channel" where
  "entry_with_url u =
     \<lparr> id' = None, name = None, tvg_name = None, tvg_id = None, tvg_logo = None,
       group = None, language = None, country = None, url = Some u \<rparr>"

subsection \<open>The progress formula\<close>

text \<open>The progress stored in the job is the size of the whole validation cache over the
  total of the run, times 100, both operations on floats.\<close>

definition progress_in_step :: "system \<Rightarrow> bool" where
  "progress_in_step sys \<longleftrightarrow>
     progress (job sys) =
       float_mul (int_truediv (length (validated_map (cache sys))) (total (job sys))) 100"

section \<open>Properties of the parsers\<close>

subsection \<open>The record built at a URL line\<close>










subsection \<open>A metadata line without a URL line\<close>

text \<open>
  Claim C1: a metadata line that is not followed by a URL line before the next metadata
  line or the end of the input yields no record, and is never paired with the URL of a
  later block.

  \<open>parse_m3u_index\<close> does not have this property. Its inner loop passes over every line
  that starts with \<open>#\<close>, a following metadata line included: of two metadata lines
  followed by one URL line, the first is paired with the URL and the second, whose URL
  it is, yields nothing.
\<close>

theorem parse_m3u_index_pairs_across_metadata: 
  \<open>parse_m3u_index (''#EXTINF:-1,A'' @ [CHR 0x0A] @ ''#EXTINF:-1,B'' @ [CHR 0x0A] @ ''http://b'') =
     [\<lparr> id' = None, name = Some ''A'', tvg_name = Some ''A'', tvg_id = None, tvg_logo = None,
        group = None, language = None, country = None, url = Some ''http://b'' \<rparr>]\<close>
  by code_simp

text \<open>On the same text \<open>parse_m3u\<close> of Backend/app.py drops the first metadata line.\<close>

lemma parse_m3u_drops_metadata_without_url:
  \<open>parse_m3u (''#EXTINF:-1,A'' @ [CHR 0x0A] @ ''#EXTINF:-1,B'' @ [CHR 0x0A] @ ''http://b'') =
     [\<lparr> m3u_name = ''B'', m3u_logo = None, m3u_url = ''http://b'', m3u_tvg_language = None,
        m3u_tvg_country = None, m3u_group_title = None \<rparr>]\<close>
  by code_simp

text \<open>The part of the claim about the end of the input holds for \<open>parse_m3u_index\<close>: a
  metadata line followed only by empty lines and lines starting with \<open>#\<close> yields
  nothing.\<close>

lemma parse_lines_only_skipped:
  "\<forall>l \<in> set ls. is_skipped l \<Longrightarrow> parse_lines ls = []"
proof (induction ls)
  case Nil
  then show ?case by simp
next
  case (Cons l ls)
  then have d: "dropWhile is_skipped ls = []" by (simp add: dropWhile_eq_Nil_conv)
  have "parse_lines (l # ls) = parse_lines ls"
    by (simp only: parse_lines.simps d list.case if_cancel)
  with Cons show ?case by simp
qed

lemma parse_lines_no_url_before_end:
  assumes "\<forall>l \<in> set rest. is_skipped l"
  shows "parse_lines (line # rest) = []"
proof -
  from assms have d: "dropWhile is_skipped rest = []" by (simp add: dropWhile_eq_Nil_conv)
  have "parse_lines (line # rest) = parse_lines rest"
    by (simp only: parse_lines.simps d list.case if_cancel)
  moreover from assms have "parse_lines rest = []" by (rule parse_lines_only_skipped)
  ultimately show ?thesis by simp
qed

subsection \<open>The casing of attribute keys\<close>

text \<open>
  Claim C7: attribute keys are matched without regard to case, so \<open>TVG-ID="x"\<close> or
  \<open>Tvg-Logo="y"\<close> fill the same field as the lower-case spelling.

  \<open>parse_m3u_index\<close> stores each key as written and looks the lower-case names up: the
  upper-case spelling fills no field, the lower-case one does.
\<close>

theorem parse_m3u_index_keys_case_sensitive:
  \<open>map id' (parse_m3u_index (''#EXTINF:-1 TVG-ID="x" Tvg-Logo="y",N'' @ [CHR 0x0A] @ ''http://u'')) = [None]
   \<and> map tvg_logo (parse_m3u_index (''#EXTINF:-1 TVG-ID="x" Tvg-Logo="y",N'' @ [CHR 0x0A] @ ''http://u'')) = [None]
   \<and> map id' (parse_m3u_index (''#EXTINF:-1 tvg-id="x" tvg-logo="y",N'' @ [CHR 0x0A] @ ''http://u'')) = [Some ''x'']
   \<and> map tvg_logo (parse_m3u_index (''#EXTINF:-1 tvg-id="x" tvg-logo="y",N'' @ [CHR 0x0A] @ ''http://u'')) = [Some ''y'']\<close>
  by code_simp

text \<open>\<open>parse_m3u\<close> of Backend/app.py lowers each key, and gives the same records for both
  spellings.\<close>

lemma parse_m3u_keys_case_insensitive:
  \<open>parse_m3u (''#EXTINF:-1 TVG-ID="x" Tvg-Logo="y",N'' @ [CHR 0x0A] @ ''http://u'')
   = parse_m3u (''#EXTINF:-1 tvg-id="x" tvg-logo="y",N'' @ [CHR 0x0A] @ ''http://u'')
   \<and> map m3u_logo (parse_m3u (''#EXTINF:-1 TVG-ID="x" Tvg-Logo="y",N'' @ [CHR 0x0A] @ ''http://u'')) = [Some ''y'']\<close>
  by code_simp

subsection \<open>The display name\<close>


text \<open>In \<open>parse_m3u\<close> the free text after the first comma comes before the
  friendly-name attribute, and an empty free text gives \<open>Unknown\<close> at once.\<close>

lemma parse_m3u_free_text_first:
  \<open>map m3u_name (parse_m3u (''#EXTINF:-1 tvg-name="Alpha",Beta'' @ [CHR 0x0A] @ ''http://u'')) = [''Beta'']
   \<and> map m3u_name (parse_m3u (''#EXTINF:-1 tvg-id="abc",'' @ [CHR 0x0A] @ ''http://u'')) = [''Unknown'']\<close>
  by code_simp

text \<open>
  A metadata line that \<open>EXTINF_RE\<close> does not match, as one without a comma after the
  duration, gives \<open>parse_m3u_index\<close> an empty dictionary, so its attributes are lost;
  \<open>parse_m3u\<close> reads them. The amended claim says nothing about such a line.
\<close>

lemma unmatched_metadata_line:
  \<open>EXTINF_RE_match ''#EXTINF:-1 tvg-name="N"'' = None
   \<and> map name (parse_m3u_index (''#EXTINF:-1 tvg-name="N"'' @ [CHR 0x0A] @ ''http://u'')) = [None]
   \<and> map m3u_name (parse_m3u (''#EXTINF:-1 tvg-name="N"'' @ [CHR 0x0A] @ ''http://u'')) = [''N'']\<close>
  by code_simp



section \<open>Properties of the classifier\<close>

text \<open>
  Claim C8 as stated: whenever the sample holds manifest markers and a variant-stream line
  carries a codec list without a known codec, the verdict is "not compatible" and the
  reason holds the codec list.

  The content type is looked at first: with a manifest content type the verdict is
  "compatible" whatever the sample says. (The sample is ASCII, which the decoder leaves
  as it is.)
\<close>

theorem content_type_overrides_codecs:
  \<open>has_playlist_marker (''#EXTM3U'' @ [CHR 0x0A] @ ''#EXT-X-STREAM-INF:BANDWIDTH=1,CODECS="hvc1.1.6,ec-3"'')
   \<and> line_codecs ''#EXT-X-STREAM-INF:BANDWIDTH=1,CODECS="hvc1.1.6,ec-3"'' = [''hvc1.1.6'', ''ec-3'']
   \<and> \<not> ok_codec ''hvc1.1.6'' \<and> \<not> ok_codec ''ec-3''
   \<and> detect_hls_from_headers_and_sample (\<lambda>b. b)
        [''content-type'' \<mapsto> ''application/vnd.apple.mpegurl'']
        (Some (''#EXTM3U'' @ [CHR 0x0A] @ ''#EXT-X-STREAM-INF:BANDWIDTH=1,CODECS="hvc1.1.6,ec-3"''))
       = (True, Some ''content-type indicates mpegurl (application/vnd.apple.mpegurl)'')\<close>
  by code_simp

text \<open>The codec entries of all variant-stream lines are pooled: one known codec on any
  line makes the verdict "compatible".\<close>

lemma codecs_pooled_over_lines:
  \<open>line_codecs ''#EXT-X-STREAM-INF:CODECS="hvc1"'' = [''hvc1''] \<and> \<not> ok_codec ''hvc1''
   \<and> detect_hls_from_headers_and_sample (\<lambda>b. b) Map.empty
        (Some (''#EXTM3U'' @ [CHR 0x0A] @ ''#EXT-X-STREAM-INF:CODECS="hvc1"'' @ [CHR 0x0A] @ ''a.m3u8''
               @ [CHR 0x0A] @ ''#EXT-X-STREAM-INF:CODECS="avc1.42E01E"'' @ [CHR 0x0A] @ ''b.m3u8''))
       = (True, Some ''playlist with CODECS hvc1,avc1.42e01e'')\<close>
  by code_simp

text \<open>
  Claim C8 as amended. When the content type does not indicate a manifest, the sample is
  not empty, its decoded text holds a manifest marker, and the codec entries collected
  from all its variant-stream lines (each stripped and in lower case) are at least one
  and none of them names a known codec, then the verdict is "not compatible" and the
  reason is \<open>playlist with unrecognized CODECS\<close> followed by these entries, joined by
  commas.
\<close>

theorem unrecognized_codecs_not_compatible:
  assumes "\<not> indicates_mpegurl (content_type hdrs)"
    and "b \<noteq> []"
    and "has_playlist_marker (decode b)"
    and "codecs_found (decode b) \<noteq> []"
    and "\<forall>c \<in> set (codecs_found (decode b)). \<not> ok_codec c"
  shows "detect_hls_from_headers_and_sample decode hdrs (Some b) =
           (False, Some (''playlist with unrecognized CODECS '' @ join '','' (codecs_found (decode b))))
         \<and> sublist (join '','' (codecs_found (decode b)))
              (''playlist with unrecognized CODECS '' @ join '','' (codecs_found (decode b)))"
proof -
  from assms(5) have "filter ok_codec (codecs_found (decode b)) = []"
    by (simp add: filter_empty_conv)
  with assms(1-4) have "detect_hls_from_headers_and_sample decode hdrs (Some b) =
      (False, Some (''playlist with unrecognized CODECS '' @ join '','' (codecs_found (decode b))))"
    by (simp add: detect_hls_from_headers_and_sample_def playlist_verdict_def Let_def)
  moreover have "sublist (join '','' (codecs_found (decode b)))
      (''playlist with unrecognized CODECS '' @ join '','' (codecs_found (decode b)))"
    by (rule sublist_append_leftI)
  ultimately show ?thesis by (rule conjI)
qed

theorem unrecognized_codecs_not_compatible_witness:
  \<open>detect_hls_from_headers_and_sample (\<lambda>b. b) Map.empty
        (Some (''#EXTM3U'' @ [CHR 0x0A] @ ''#EXT-X-STREAM-INF:BANDWIDTH=1,CODECS="HVC1.1.6, ec-3"''))
       = (False, Some ''playlist with unrecognized CODECS hvc1.1.6,ec-3'')\<close>
proof -
  let ?b = \<open>''#EXTM3U'' @ [CHR 0x0A] @ ''#EXT-X-STREAM-INF:BANDWIDTH=1,CODECS="HVC1.1.6, ec-3"''\<close>
  have 1: "\<not> indicates_mpegurl (content_type Map.empty)" by code_simp
  have 2: "?b \<noteq> []" by simp
  have 3: "has_playlist_marker ((\<lambda>b. b) ?b)" by code_simp
  have 4: "codecs_found ((\<lambda>b. b) ?b) = [''hvc1.1.6'', ''ec-3'']" by code_simp
  have 5: "\<forall>c \<in> set (codecs_found ((\<lambda>b. b) ?b)). \<not> ok_codec c"
    unfolding 4 by code_simp
  have 6: "codecs_found ((\<lambda>b. b) ?b) \<noteq> []" unfolding 4 by simp
  from unrecognized_codecs_not_compatible[of Map.empty ?b "\<lambda>b. b", OF 1 2 3 6 5] show ?thesis
    unfolding 4 by simp
qed

section \<open>Properties of the prober\<close>

lemma head_or_get_returns: "\<exists>status hdrs sample. head_or_get u client = Inr (status, hdrs, sample)"
  by (auto simp: head_or_get_def Let_def split: http_outcome.splits option.splits if_splits)

lemma validate_channel_entry_working_iff:
  assumes "url entry = Some u" and "u \<noteq> []"
    and "head_or_get u client = Inr (status, hdrs, sample)"
  shows "working (validate_channel_entry decode entry client now) \<longleftrightarrow> 200 \<le> status \<and> status < 400"
  using assms by (auto simp: validate_channel_entry_def Let_def)

text \<open>
  Claim C2: \<open>working\<close> is true exactly when the final status is a 2xx; a transport failure
  on both attempts gives \<open>working = False\<close> with the error text in the detail, and any
  other status gives \<open>working = False\<close> with the status code in the detail.

  The code sets \<open>working\<close> by \<open>200 <= status < 400\<close>, under the comment "mark as working
  if we got 2xx": a final status 304 counts as working. And since \<open>_head_or_get\<close> turns
  every exception into the status 0, the detail of a transport failure is
  \<open>HTTP status 0\<close>, not the error text, although the caller has a handler that would
  store it.
\<close>

theorem redirect_status_counts_as_working:
  "validate_channel_entry (\<lambda>b. b) (entry_with_url ''http://s'')
      \<lparr> client_head = (\<lambda>u. Response \<lparr> status_code = 304, headers = Map.empty, content = [] \<rparr>),
        client_get = (\<lambda>u. Response \<lparr> status_code = 304, headers = Map.empty, content = [] \<rparr>) \<rparr> 1000
     = \<lparr> working = True, hls_compatible = False, last_checked = Some 1000, check_error = None \<rparr>
   \<and> validate_channel_entry (\<lambda>b. b) (entry_with_url ''http://s'')
      \<lparr> client_head = (\<lambda>u. Raises ''ConnectTimeout''),
        client_get = (\<lambda>u. Raises ''ConnectTimeout'') \<rparr> 1000
     = \<lparr> working = False, hls_compatible = False, last_checked = Some 1000,
         check_error = Some ''HTTP status 0'' \<rparr>"
  by code_simp

text \<open>
  Claim C9: the result of a probe that ran has its \<open>last_checked\<close> set, on a transport
  failure, on an error status and on success alike. (An entry without a URL is not
  probed.) The result that the two callers store for a gathered task has it set as
  well, also when it stands for an exception.
\<close>

theorem probe_sets_last_checked:
  assumes "url entry = Some u" and "u \<noteq> []"
  shows "last_checked (validate_channel_entry decode entry client now) = Some now
         \<and> last_checked (as_result t (Inr (validate_channel_entry decode entry client now))) = Some now
         \<and> last_checked (as_result t (Inl msg)) = Some t"
proof -
  obtain status hdrs sample where "head_or_get u client = Inr (status, hdrs, sample)"
    using head_or_get_returns by blast
  with assms show ?thesis
    by (simp add: validate_channel_entry_def as_result_def Let_def)
qed

theorem probe_sets_last_checked_witness:
  "last_checked (validate_channel_entry (\<lambda>b. b) (entry_with_url ''http://s'')
      \<lparr> client_head = (\<lambda>u. Raises ''ConnectTimeout''),
        client_get = (\<lambda>u. Raises ''ConnectTimeout'') \<rparr> 1000) = Some 1000"
proof -
  have "url (entry_with_url ''http://s'') = Some ''http://s''"
    by (simp add: entry_with_url_def)
  moreover have "''http://s'' \<noteq> []" by simp
  ultimately show ?thesis using probe_sets_last_checked by blast
qed

section \<open>Properties of the page validation\<close>

text \<open>
  Claim C3: a URL whose cached result is fresh is not probed again, and what is stored
  under a probed URL is the result of the probe of that URL.

  The results are stored by a second pass over all entries with a URL, the skipped ones
  included, that hands them out in order. With a fresh first entry and a second entry
  to probe, only the second is probed, and its result is stored under the URL of the
  first; nothing is stored for the second.
\<close>

theorem page_validation_misattributes_result:
  "to_validate [(Some ''http://a'', \<lparr> working = True, hls_compatible = False,
                     last_checked = Some 1000, check_error = None \<rparr>)] 2000
      [entry_with_url ''http://a'', entry_with_url ''http://b''] = [entry_with_url ''http://b'']
   \<and> validated_map (cache (validate_channels_for_list
        (\<lambda>e. Inr (validate_channel_entry (\<lambda>b. b) e
           \<lparr> client_head = (\<lambda>u. Response \<lparr> status_code = 404, headers = Map.empty, content = [] \<rparr>),
             client_get = (\<lambda>u. Response \<lparr> status_code = 404, headers = Map.empty, content = [] \<rparr>) \<rparr>
           2000))
        2000 2000
        [entry_with_url ''http://a'', entry_with_url ''http://b'']
        ((initial_system \<lparr> respond = (\<lambda>u. Inl ''unused''), requests = [] \<rparr>)
           \<lparr> cache := initial_cache \<lparr> validated_map :=
               [(Some ''http://a'', \<lparr> working = True, hls_compatible = False,
                     last_checked = Some 1000, check_error = None \<rparr>)] \<rparr> \<rparr>)))
     = [(Some ''http://a'', \<lparr> working = False, hls_compatible = False,
                     last_checked = Some 2000, check_error = Some ''HTTP status 404'' \<rparr>)]"
  by code_simp

section \<open>Properties of the channel cache\<close>

text \<open>
  Claim C4 as stated: with \<open>force = False\<close>, a previous snapshot younger than the
  freshness window is returned unchanged without a fetch; with \<open>force = True\<close> the list is
  always fetched again, parsed again, and the snapshot and its time replaced.

  The test \<open>if items and last_loaded\<close> takes an empty list for no snapshot: an empty
  snapshot one microsecond old is fetched again. And when the fetch of a forced load
  fails, nothing is replaced.
\<close>

theorem empty_snapshot_refetched:
  "requests (net (snd (load_channels False 1 1
      ((initial_system \<lparr> respond = (\<lambda>u. Inr []), requests = [] \<rparr>)
         \<lparr> cache := \<lparr> items = Some [], last_loaded = Some 0, validated_map = [] \<rparr> \<rparr>))))
     = [CHANNEL_INDEX_URL]
   \<and> 1 - 0 < CHANNEL_CACHE_TTL
   \<and> cache (snd (load_channels True 1 1
      ((initial_system \<lparr> respond = (\<lambda>u. Inl ''503 Service Unavailable''), requests = [] \<rparr>)
         \<lparr> cache := \<lparr> items = Some [entry_with_url ''http://a''], last_loaded = Some 0,
                       validated_map = [] \<rparr> \<rparr>)))
     = \<lparr> items = Some [entry_with_url ''http://a''], last_loaded = Some 0, validated_map = [] \<rparr>"
  by (simp add: load_channels_def fetch_channel_index_text_def Let_def initial_system_def
        CHANNEL_CACHE_TTL_def)

text \<open>
  Claim C4 as amended. With \<open>force = False\<close>, a previous snapshot that is not empty and
  younger than the freshness window is returned, and the whole state, the log of
  requests included, is unchanged. With \<open>force = True\<close> the manifest is always requested;
  when the request succeeds the text is parsed, returned and stored with the new time,
  and when it fails the error is returned and the cache is left as it was.
\<close>

theorem load_channels_cache_policy:
  "(items (cache sys) = Some its \<and> its \<noteq> [] \<and> last_loaded (cache sys) = Some t
      \<and> now - t < CHANNEL_CACHE_TTL
    \<longrightarrow> load_channels False now now' sys = (Inr its, sys))
   \<and> (respond (net sys2) CHANNEL_INDEX_URL = Inr txt
    \<longrightarrow> load_channels True now now' sys2 =
          (Inr (parse_m3u_index txt),
           sys2 \<lparr> net := (net sys2) \<lparr> requests := requests (net sys2) @ [CHANNEL_INDEX_URL] \<rparr>,
                 cache := (cache sys2) \<lparr> items := Some (parse_m3u_index txt),
                                        last_loaded := Some now' \<rparr> \<rparr>))
   \<and> (respond (net sys3) CHANNEL_INDEX_URL = Inl e
    \<longrightarrow> load_channels True now now' sys3 =
          (Inl e, sys3 \<lparr> net := (net sys3) \<lparr> requests := requests (net sys3) @ [CHANNEL_INDEX_URL] \<rparr> \<rparr>))"
  by (auto simp: load_channels_def fetch_channel_index_text_def Let_def split: option.splits)

theorem load_channels_cache_policy_witness:
  "load_channels False 1000 1001
      ((initial_system \<lparr> respond = (\<lambda>u. Inl ''down''), requests = [] \<rparr>)
         \<lparr> cache := \<lparr> items = Some [entry_with_url ''http://a''], last_loaded = Some 0,
                       validated_map = [] \<rparr> \<rparr>)
     = (Inr [entry_with_url ''http://a''],
        (initial_system \<lparr> respond = (\<lambda>u. Inl ''down''), requests = [] \<rparr>)
         \<lparr> cache := \<lparr> items = Some [entry_with_url ''http://a''], last_loaded = Some 0,
                       validated_map = [] \<rparr> \<rparr>)
   \<and> fst (load_channels True 1000 1001
        (initial_system \<lparr> respond = (\<lambda>u. Inr []), requests = [] \<rparr>)) = Inr (parse_m3u_index [])
   \<and> last_loaded (cache (snd (load_channels True 1000 1001
        (initial_system \<lparr> respond = (\<lambda>u. Inr []), requests = [] \<rparr>)))) = Some 1001
   \<and> load_channels True 1000 1001
        (initial_system \<lparr> respond = (\<lambda>u. Inl ''down''), requests = [] \<rparr>)
      = (Inl ''down'',
         initial_system \<lparr> respond = (\<lambda>u. Inl ''down''), requests = [CHANNEL_INDEX_URL] \<rparr>)"
proof -
  let ?s1 = "(initial_system \<lparr> respond = (\<lambda>u. Inl ''down''), requests = [] \<rparr>)
         \<lparr> cache := \<lparr> items = Some [entry_with_url ''http://a''], last_loaded = Some 0,
                       validated_map = [] \<rparr> \<rparr>"
  let ?s2 = "initial_system \<lparr> respond = (\<lambda>u. Inr []), requests = [] \<rparr>"
  let ?s3 = "initial_system \<lparr> respond = (\<lambda>u. Inl ''down''), requests = [] \<rparr>"
  have h1: "items (cache ?s1) = Some [entry_with_url ''http://a''] \<and> [entry_with_url ''http://a''] \<noteq> []
      \<and> last_loaded (cache ?s1) = Some 0 \<and> 1000 - 0 < CHANNEL_CACHE_TTL"
    by (simp add: CHANNEL_CACHE_TTL_def)
  have h2: "respond (net ?s2) CHANNEL_INDEX_URL = Inr []" by (simp add: initial_system_def)
  have h3: "respond (net ?s3) CHANNEL_INDEX_URL = Inl ''down''" by (simp add: initial_system_def)
  from load_channels_cache_policy[of ?s1 "[entry_with_url ''http://a'']" 0 1000 1001 ?s2 "[]" ?s3 "''down''"] h1 h2 h3
  show ?thesis by (simp add: initial_system_def)
qed

section \<open>Properties of the bulk validation job\<close>

text \<open>
  Claim C5: a request to start the job while one is running is rejected with the
  conflict "validation already running"; no task is created and the state of the running
  job is untouched. A task that starts while a job is running returns at once, too.
\<close>

theorem start_while_running_rejected:
  assumes "running (job sys)"
  shows "trigger_validate_all force_refresh now sys =
           (Inl (HTTPException 409 ''validation already running''), sys)
         \<and> validate_all_channels force_refresh clk probe sys = (None, sys)"
  using assms by (simp add: trigger_validate_all_def validate_all_channels_def)

theorem start_while_running_rejected_witness:
  "trigger_validate_all True 5000
     ((initial_system \<lparr> respond = (\<lambda>u. Inl ''down''), requests = [] \<rparr>)
        \<lparr> job := initial_job \<lparr> running := True, started_at := Some 1000, total := 7 \<rparr> \<rparr>)
   = (Inl (HTTPException 409 ''validation already running''),
      (initial_system \<lparr> respond = (\<lambda>u. Inl ''down''), requests = [] \<rparr>)
        \<lparr> job := initial_job \<lparr> running := True, started_at := Some 1000, total := 7 \<rparr> \<rparr>)"
proof -
  let ?sys = "(initial_system \<lparr> respond = (\<lambda>u. Inl ''down''), requests = [] \<rparr>)
        \<lparr> job := initial_job \<lparr> running := True, started_at := Some 1000, total := 7 \<rparr> \<rparr>"
  have "running (job ?sys)" by simp
  from start_while_running_rejected[OF this] show ?thesis by simp
qed

subsection \<open>The validation cache never shrinks\<close>

lemma update_keys_mono: "fst ` set al \<subseteq> fst ` set (AList.update k v al)"
  by (auto simp: dom_update)

lemma update_length_mono: "length al \<le> length (AList.update k v al)"
  by (induction al) auto

lemma attach_results_keys:
  "fst ` set vm \<subseteq> fst ` set (attach_results t rs es idx vm)"
proof (induction es arbitrary: idx vm)
  case Nil
  then show ?case by simp
next
  case (Cons e es)
  have "fst ` set vm \<subseteq> fst ` set (AList.update (url e) (as_result t (rs ! idx)) vm)"
    by (rule update_keys_mono)
  also have "\<dots> \<subseteq> fst ` set (attach_results t rs es (idx + 1)
      (AList.update (url e) (as_result t (rs ! idx)) vm))"
    by (rule Cons.IH)
  finally show ?case using Cons.IH[of vm idx] by simp
qed

lemma attach_results_length:
  "length vm \<le> length (attach_results t rs es idx vm)"
proof (induction es arbitrary: idx vm)
  case Nil
  then show ?case by simp
next
  case (Cons e es)
  have "length vm \<le> length (AList.update (url e) (as_result t (rs ! idx)) vm)"
    by (rule update_length_mono)
  also have "\<dots> \<le> length (attach_results t rs es (idx + 1)
      (AList.update (url e) (as_result t (rs ! idx)) vm))"
    by (rule Cons.IH)
  finally show ?case using Cons.IH[of vm idx] by simp
qed

lemma record_result_map:
  "validated_map (cache (record_result t sl ires sys)) =
     AList.update (if fst ires < length sl then url (sl ! fst ires) else None)
       (as_result t (snd ires)) (validated_map (cache sys))"
  by (simp add: record_result_def Let_def)

lemma record_result_total: "total (job (record_result t sl ires sys)) = total (job sys)"
  by (simp add: record_result_def Let_def split: sum.splits)

lemma record_result_progress:
  "progress (job (record_result t sl ires sys)) =
     float_mul (int_truediv (length (validated_map (cache (record_result t sl ires sys))))
                            (total (job (record_result t sl ires sys)))) 100"
  by (simp add: record_result_def Let_def split: sum.splits)

lemma fold_record_result_keys:
  "fst ` set (validated_map (cache sys))
     \<subseteq> fst ` set (validated_map (cache (fold (record_result t sl) xs sys)))"
proof (induction xs arbitrary: sys)
  case Nil
  then show ?case by simp
next
  case (Cons x xs)
  have "fst ` set (validated_map (cache sys))
      \<subseteq> fst ` set (validated_map (cache (record_result t sl x sys)))"
    unfolding record_result_map by (rule update_keys_mono)
  then show ?case using Cons.IH[of "record_result t sl x sys"] by auto
qed

lemma fold_record_result_length:
  "length (validated_map (cache sys))
     \<le> length (validated_map (cache (fold (record_result t sl) xs sys)))"
proof (induction xs arbitrary: sys)
  case Nil
  then show ?case by simp
next
  case (Cons x xs)
  have "length (validated_map (cache sys))
      \<le> length (validated_map (cache (record_result t sl x sys)))"
    unfolding record_result_map by (rule update_length_mono)
  then show ?case using Cons.IH[of "record_result t sl x sys"] by auto
qed

lemma fold_record_result_total:
  "total (job (fold (record_result t sl) xs sys)) = total (job sys)"
  by (induction xs arbitrary: sys) (simp_all add: record_result_total)

lemma fold_record_result_progress:
  "xs \<noteq> [] \<or> progress_in_step sys \<Longrightarrow> progress_in_step (fold (record_result t sl) xs sys)"
proof (induction xs arbitrary: sys)
  case Nil
  then show ?case by simp
next
  case (Cons x xs)
  have "progress_in_step (record_result t sl x sys)"
    unfolding progress_in_step_def by (rule record_result_progress)
  then show ?case using Cons.IH[of "record_result t sl x sys"] by simp
qed

lemma chunks_loop_keys:
  "fst ` set (validated_map (cache sys))
     \<subseteq> fst ` set (validated_map (cache (chunks_loop probe t its tasks idx sys)))"
proof (induction probe t its tasks idx sys rule: chunks_loop.induct)
  case (1 probe t its tasks idx sys)
  show ?case
  proof (cases "idx < length tasks")
    case False
    then show ?thesis by (subst chunks_loop.simps) simp
  next
    case True
    let ?sys' = "fold (record_result t (take chunk_size (drop idx its)))
                   (enumerate 0 (map probe (take chunk_size (drop idx tasks)))) sys"
    have "fst ` set (validated_map (cache sys)) \<subseteq> fst ` set (validated_map (cache ?sys'))"
      by (rule fold_record_result_keys)
    also have "\<dots> \<subseteq> fst ` set (validated_map (cache
        (chunks_loop probe t its tasks (idx + chunk_size) ?sys')))"
      using 1[OF True refl refl refl] .
    finally show ?thesis using True by (subst chunks_loop.simps) (simp add: Let_def)
  qed
qed

lemma chunks_loop_length:
  "length (validated_map (cache sys))
     \<le> length (validated_map (cache (chunks_loop probe t its tasks idx sys)))"
proof (induction probe t its tasks idx sys rule: chunks_loop.induct)
  case (1 probe t its tasks idx sys)
  show ?case
  proof (cases "idx < length tasks")
    case False
    then show ?thesis by (subst chunks_loop.simps) simp
  next
    case True
    let ?sys' = "fold (record_result t (take chunk_size (drop idx its)))
                   (enumerate 0 (map probe (take chunk_size (drop idx tasks)))) sys"
    have "length (validated_map (cache sys)) \<le> length (validated_map (cache ?sys'))"
      by (rule fold_record_result_length)
    also have "\<dots> \<le> length (validated_map (cache
        (chunks_loop probe t its tasks (idx + chunk_size) ?sys')))"
      using 1[OF True refl refl refl] .
    finally show ?thesis using True by (subst chunks_loop.simps) (simp add: Let_def)
  qed
qed

lemma chunks_loop_total:
  "total (job (chunks_loop probe t its tasks idx sys)) = total (job sys)"
proof (induction probe t its tasks idx sys rule: chunks_loop.induct)
  case (1 probe t its tasks idx sys)
  show ?case
  proof (cases "idx < length tasks")
    case False
    then show ?thesis by (subst chunks_loop.simps) simp
  next
    case True
    then show ?thesis
      using 1[OF True refl refl refl]
      by (subst chunks_loop.simps) (simp add: Let_def fold_record_result_total)
  qed
qed

lemma chunks_loop_progress:
  "idx < length tasks \<or> progress_in_step sys \<Longrightarrow> progress_in_step (chunks_loop probe t its tasks idx sys)"
proof (induction probe t its tasks idx sys rule: chunks_loop.induct)
  case (1 probe t its tasks idx sys)
  show ?case
  proof (cases "idx < length tasks")
    case False
    with 1(2) show ?thesis by (subst chunks_loop.simps) simp
  next
    case True
    let ?rs = "enumerate 0 (map probe (take chunk_size (drop idx tasks)))"
    let ?sys' = "fold (record_result t (take chunk_size (drop idx its))) ?rs sys"
    from True have "take chunk_size (drop idx tasks) \<noteq> []"
      by (simp add: chunk_size_def CHANNEL_VALIDATE_CONCURRENCY_def)
    then have "?rs \<noteq> []"
      by (metis enumerate_eq_zip length_0_conv length_enumerate length_map)
    then have "progress_in_step ?sys'" by (simp add: fold_record_result_progress)
    then have "progress_in_step (chunks_loop probe t its tasks (idx + chunk_size) ?sys')"
      using 1(1)[OF True refl refl refl] by simp
    moreover have "chunks_loop probe t its tasks idx sys =
        chunks_loop probe t its tasks (idx + chunk_size) ?sys'"
      using True by (subst chunks_loop.simps) (simp add: Let_def)
    ultimately show ?thesis by simp
  qed
qed

lemma load_channels_map:
  "validated_map (cache (snd (load_channels force now now' sys))) = validated_map (cache sys)"
  by (simp add: load_channels_def fetch_channel_index_text_def Let_def
           split: option.splits sum.splits prod.splits)

lemma load_channels_job: "job (snd (load_channels force now now' sys)) = job sys"
  by (simp add: load_channels_def fetch_channel_index_text_def Let_def
           split: option.splits sum.splits prod.splits)

lemma filter_url_length:
  "length (filter (\<lambda>it. truthy (url it)) its) = length (filter truthy (map url its))"
  by (induction its) auto

lemma validate_all_body_keys:
  "fst ` set (validated_map (cache sys))
     \<subseteq> fst ` set (validated_map (cache (snd (validate_all_body force clk probe sys))))"
proof -
  obtain r sys' where l: "load_channels force (at_check clk) (at_load clk) sys = (r, sys')"
    by (cases "load_channels force (at_check clk) (at_load clk) sys")
  have m: "validated_map (cache sys') = validated_map (cache sys)"
    using load_channels_map[of force "at_check clk" "at_load clk" sys] l by simp
  show ?thesis
  proof (cases r)
    case (Inl e)
    with l m show ?thesis by (simp add: validate_all_body_def)
  next
    case (Inr its)
    let ?s = "sys' \<lparr> job := (job sys') \<lparr> total := length (filter truthy (map url its)) \<rparr> \<rparr>"
    have "fst ` set (validated_map (cache ?s)) \<subseteq> fst ` set (validated_map (cache
        (chunks_loop probe (at_error clk) its (filter (\<lambda>it. truthy (url it)) its) 0 ?s)))"
      by (rule chunks_loop_keys)
    with Inr l m show ?thesis by (simp add: validate_all_body_def Let_def)
  qed
qed

lemma validate_all_body_length:
  "length (validated_map (cache sys))
     \<le> length (validated_map (cache (snd (validate_all_body force clk probe sys))))"
proof -
  obtain r sys' where l: "load_channels force (at_check clk) (at_load clk) sys = (r, sys')"
    by (cases "load_channels force (at_check clk) (at_load clk) sys")
  have m: "validated_map (cache sys') = validated_map (cache sys)"
    using load_channels_map[of force "at_check clk" "at_load clk" sys] l by simp
  show ?thesis
  proof (cases r)
    case (Inl e)
    with l m show ?thesis by (simp add: validate_all_body_def)
  next
    case (Inr its)
    let ?s = "sys' \<lparr> job := (job sys') \<lparr> total := length (filter truthy (map url its)) \<rparr> \<rparr>"
    have "length (validated_map (cache ?s)) \<le> length (validated_map (cache
        (chunks_loop probe (at_error clk) its (filter (\<lambda>it. truthy (url it)) its) 0 ?s)))"
      by (rule chunks_loop_length)
    with Inr l m show ?thesis by (simp add: validate_all_body_def Let_def)
  qed
qed

lemma validate_all_body_progress:
  assumes "total (job sys) = 0"
    and "0 < total (job (snd (validate_all_body force clk probe sys)))"
  shows "progress_in_step (snd (validate_all_body force clk probe sys))"
proof -
  obtain r sys' where l: "load_channels force (at_check clk) (at_load clk) sys = (r, sys')"
    by (cases "load_channels force (at_check clk) (at_load clk) sys")
  have j: "job sys' = job sys"
    using load_channels_job[of force "at_check clk" "at_load clk" sys] l by simp
  show ?thesis
  proof (cases r)
    case (Inl e)
    with l j assms show ?thesis by (simp add: validate_all_body_def)
  next
    case (Inr its)
    let ?n = "length (filter truthy (map url its))"
    let ?s = "sys' \<lparr> job := (job sys') \<lparr> total := ?n \<rparr> \<rparr>"
    let ?tasks = "filter (\<lambda>it. truthy (url it)) its"
    have b: "validate_all_body force clk probe sys =
        (if ?n = 0 then (None, ?s) else (None, chunks_loop probe (at_error clk) its ?tasks 0 ?s))"
      using l Inr by (auto simp: validate_all_body_def Let_def filter_map o_def)
    show ?thesis
    proof (cases "?n = 0")
      case True
      with b assms(2) show ?thesis by simp
    next
      case False
      then have "0 < length ?tasks" by (simp add: filter_url_length)
      then have "progress_in_step (chunks_loop probe (at_error clk) its ?tasks 0 ?s)"
        by (simp add: chunks_loop_progress)
      with b False show ?thesis by simp
    qed
  qed
qed

lemma validate_all_channels_running:
  "running (job sys) \<Longrightarrow> validate_all_channels force clk probe sys = (None, sys)"
  by (simp add: validate_all_channels_def)

lemma validate_all_channels_idle:
  "\<not> running (job sys) \<Longrightarrow>
   snd (validate_all_channels force clk probe sys) =
     finish_run clk (snd (validate_all_body force clk probe (start_run clk sys)))"
  by (simp add: validate_all_channels_def Let_def)

lemma finish_run_cache: "cache (finish_run clk sys) = cache sys"
  by (simp add: finish_run_def)

lemma finish_run_total: "total (job (finish_run clk sys)) = total (job sys)"
  by (simp add: finish_run_def)

lemma finish_run_progress: "progress (job (finish_run clk sys)) = progress (job sys)"
  by (simp add: finish_run_def)

lemma start_run_cache: "cache (start_run clk sys) = cache sys"
  by (simp add: start_run_def)

lemma start_run_total: "total (job (start_run clk sys)) = 0"
  by (simp add: start_run_def)

lemma validate_all_channels_keys:
  "fst ` set (validated_map (cache sys))
     \<subseteq> fst ` set (validated_map (cache (snd (validate_all_channels force clk probe sys))))"
proof (cases "running (job sys)")
  case True
  then show ?thesis by (simp add: validate_all_channels_running)
next
  case False
  have "fst ` set (validated_map (cache (start_run clk sys)))
     \<subseteq> fst ` set (validated_map (cache (snd (validate_all_body force clk probe (start_run clk sys)))))"
    by (rule validate_all_body_keys)
  then show ?thesis
    by (simp add: validate_all_channels_idle[OF False] finish_run_cache start_run_cache)
qed

lemma validate_all_channels_length:
  "length (validated_map (cache sys))
     \<le> length (validated_map (cache (snd (validate_all_channels force clk probe sys))))"
proof (cases "running (job sys)")
  case True
  then show ?thesis by (simp add: validate_all_channels_running)
next
  case False
  have "length (validated_map (cache (start_run clk sys)))
     \<le> length (validated_map (cache (snd (validate_all_body force clk probe (start_run clk sys)))))"
    by (rule validate_all_body_length)
  then show ?thesis
    by (simp add: validate_all_channels_idle[OF False] finish_run_cache start_run_cache)
qed

lemma validate_all_channels_progress:
  assumes "\<not> running (job sys)"
    and "0 < total (job (snd (validate_all_channels force clk probe sys)))"
  shows "progress_in_step (snd (validate_all_channels force clk probe sys))"
proof -
  let ?b = "snd (validate_all_body force clk probe (start_run clk sys))"
  from assms have "0 < total (job ?b)"
    by (simp add: validate_all_channels_idle finish_run_total)
  then have "progress_in_step ?b"
    using validate_all_body_progress[OF start_run_total] by blast
  then show ?thesis
    by (simp add: validate_all_channels_idle[OF assms(1)] progress_in_step_def
          finish_run_cache finish_run_total finish_run_progress)
qed

lemma validate_channels_for_list_keys:
  "fst ` set (validated_map (cache sys))
     \<subseteq> fst ` set (validated_map (cache (validate_channels_for_list probe now t entries sys)))"
  using attach_results_keys by (simp add: validate_channels_for_list_def Let_def)

lemma validate_channels_for_list_length:
  "length (validated_map (cache sys))
     \<le> length (validated_map (cache (validate_channels_for_list probe now t entries sys)))"
  using attach_results_length by (simp add: validate_channels_for_list_def Let_def)

text \<open>The progress is held as a float: 7 results over a total of 25 give
  \<open>28.000000000000004\<close>, and one over 4000 is reported as \<open>0.03\<close>.\<close>

lemma progress_in_floats:
  "float_mul (int_truediv 7 25) 100 = 28 + 1 / 2 ^ 48
   \<and> round2 (float_mul (int_truediv 7 25) 100) = 28
   \<and> round2 (float_mul (int_truediv 1 4000) 100) = round_to_double (3 / 100)"
proof -
  have e: "int_truediv 1 4000 = round_to_double (1 / 4000)"
    by (simp add: int_truediv_def)
  have "float_mul (int_truediv 7 25) 100 = 28 + 1 / 2 ^ 48" by code_simp
  moreover have "round2 (float_mul (int_truediv 7 25) 100) = 28" by code_simp
  moreover have "round2 (float_mul (round_to_double (1 / 4000)) 100) = round_to_double (3 / 100)"
    by code_simp
  ultimately show ?thesis unfolding e by (intro conjI)
qed

text \<open>
  Claim C10: no operation removes an entry of the validation cache: over a load of the
  channel list, a page validation, a bulk run and a start request its keys stay and its
  size does not decrease. After a bulk run that was started with no job running and
  has a total above zero, the progress is the size of the whole cache over that total,
  times 100, as computed in floats. So the progress can exceed 100 and the reported cache size the total: with
  two results cached for URLs that are no longer in the list and one channel in the
  list, a run ends with a progress of 300 percent, a cache of size 3 and a total of 1.
\<close>

theorem validated_map_grows_and_progress_unbounded:
  "fst ` set (validated_map (cache sys))
     \<subseteq> fst ` set (validated_map (cache (snd (load_channels force now now' sys))))
   \<and> length (validated_map (cache sys))
     \<le> length (validated_map (cache (snd (load_channels force now now' sys))))
   \<and> fst ` set (validated_map (cache sys))
     \<subseteq> fst ` set (validated_map (cache (validate_channels_for_list probe now t entries sys)))
   \<and> length (validated_map (cache sys))
     \<le> length (validated_map (cache (validate_channels_for_list probe now t entries sys)))
   \<and> fst ` set (validated_map (cache sys))
     \<subseteq> fst ` set (validated_map (cache (snd (validate_all_channels force clk probe sys))))
   \<and> length (validated_map (cache sys))
     \<le> length (validated_map (cache (snd (validate_all_channels force clk probe sys))))
   \<and> validated_map (cache (snd (trigger_validate_all force now sys))) = validated_map (cache sys)
   \<and> (\<not> running (job sys)
        \<and> 0 < total (job (snd (validate_all_channels force clk probe sys)))
      \<longrightarrow> progress_in_step (snd (validate_all_channels force clk probe sys)))
   \<and> validate_status (snd (validate_all_channels False
      \<lparr> at_start = 1000, at_check = 1000, at_load = 1000, at_error = 1000, at_finish = 2000 \<rparr>
      (\<lambda>e. Inr \<lparr> working = True, hls_compatible = True, last_checked = Some 1500, check_error = None \<rparr>)
      ((initial_system \<lparr> respond = (\<lambda>u. Inl ''down''), requests = [] \<rparr>)
         \<lparr> cache := \<lparr> items = Some [entry_with_url ''http://z''], last_loaded = Some 0,
              validated_map =
                [(Some ''http://x'', \<lparr> working = True, hls_compatible = True, last_checked = Some 0, check_error = None \<rparr>),
                 (Some ''http://y'', \<lparr> working = False, hls_compatible = False, last_checked = Some 0, check_error = Some ''HTTP status 404'' \<rparr>)] \<rparr> \<rparr>)))
   = \<lparr> status_running = False, status_started_at = Some 1000, status_finished_at = Some 2000,
       status_total = 1, status_validated = 1, status_errors = 0,
       progress_percent = 300, validated_map_size = 3 \<rparr>"
proof (intro conjI impI)
  show "fst ` set (validated_map (cache sys))
     \<subseteq> fst ` set (validated_map (cache (snd (load_channels force now now' sys))))"
    by (simp add: load_channels_map)
  show "length (validated_map (cache sys))
     \<le> length (validated_map (cache (snd (load_channels force now now' sys))))"
    by (simp add: load_channels_map)
  show "fst ` set (validated_map (cache sys))
     \<subseteq> fst ` set (validated_map (cache (validate_channels_for_list probe now t entries sys)))"
    by (rule validate_channels_for_list_keys)
  show "length (validated_map (cache sys))
     \<le> length (validated_map (cache (validate_channels_for_list probe now t entries sys)))"
    by (rule validate_channels_for_list_length)
  show "fst ` set (validated_map (cache sys))
     \<subseteq> fst ` set (validated_map (cache (snd (validate_all_channels force clk probe sys))))"
    by (rule validate_all_channels_keys)
  show "length (validated_map (cache sys))
     \<le> length (validated_map (cache (snd (validate_all_channels force clk probe sys))))"
    by (rule validate_all_channels_length)
  show "validated_map (cache (snd (trigger_validate_all force now sys))) = validated_map (cache sys)"
    by (simp add: trigger_validate_all_def)
next
  assume "\<not> running (job sys)
        \<and> 0 < total (job (snd (validate_all_channels force clk probe sys)))"
  then show "progress_in_step (snd (validate_all_channels force clk probe sys))"
    using validate_all_channels_progress by blast
next
  show "validate_status (snd (validate_all_channels False
      \<lparr> at_start = 1000, at_check = 1000, at_load = 1000, at_error = 1000, at_finish = 2000 \<rparr>
      (\<lambda>e. Inr \<lparr> working = True, hls_compatible = True, last_checked = Some 1500, check_error = None \<rparr>)
      ((initial_system \<lparr> respond = (\<lambda>u. Inl ''down''), requests = [] \<rparr>)
         \<lparr> cache := \<lparr> items = Some [entry_with_url ''http://z''], last_loaded = Some 0,
              validated_map =
                [(Some ''http://x'', \<lparr> working = True, hls_compatible = True, last_checked = Some 0, check_error = None \<rparr>),
                 (Some ''http://y'', \<lparr> working = False, hls_compatible = False, last_checked = Some 0, check_error = Some ''HTTP status 404'' \<rparr>)] \<rparr> \<rparr>)))
   = \<lparr> status_running = False, status_started_at = Some 1000, status_finished_at = Some 2000,
       status_total = 1, status_validated = 1, status_errors = 0,
       progress_percent = 300, validated_map_size = 3 \<rparr>"
    by code_simp
qed

theorem validated_map_grows_and_progress_unbounded_witness:
  "progress (job (snd (validate_all_channels False
      \<lparr> at_start = 1000, at_check = 1000, at_load = 1000, at_error = 1000, at_finish = 2000 \<rparr>
      (\<lambda>e. Inr \<lparr> working = True, hls_compatible = True, last_checked = Some 1500, check_error = None \<rparr>)
      ((initial_system \<lparr> respond = (\<lambda>u. Inl ''down''), requests = [] \<rparr>)
         \<lparr> cache := \<lparr> items = Some [entry_with_url ''http://z''], last_loaded = Some 0,
              validated_map =
                [(Some ''http://x'', \<lparr> working = True, hls_compatible = True, last_checked = Some 0, check_error = None \<rparr>)] \<rparr> \<rparr>)))) = 200"
proof -
  let ?clk = "\<lparr> at_start = 1000, at_check = 1000, at_load = 1000, at_error = 1000, at_finish = 2000 \<rparr>"
  let ?probe = "\<lambda>e :: channel. (Inr \<lparr> working = True, hls_compatible = True, last_checked = Some 1500, check_error = None \<rparr> :: gathered)"
  let ?sys = "(initial_system \<lparr> respond = (\<lambda>u. Inl ''down''), requests = [] \<rparr>)
         \<lparr> cache := \<lparr> items = Some [entry_with_url ''http://z''], last_loaded = Some 0,
              validated_map =
                [(Some ''http://x'', \<lparr> working = True, hls_compatible = True, last_checked = Some 0, check_error = None \<rparr>)] \<rparr> \<rparr>"
  let ?end = "snd (validate_all_channels False ?clk ?probe ?sys)"
  have idle: "\<not> running (job ?sys)" by (simp add: initial_system_def initial_job_def)
  have tot: "total (job ?end) = 1" by code_simp
  have len: "length (validated_map (cache ?end)) = 2" by code_simp
  from validated_map_grows_and_progress_unbounded
         [where sys = ?sys and force = False and clk = ?clk and probe = ?probe]
  have "\<not> running (job ?sys) \<and> 0 < total (job ?end) \<longrightarrow> progress_in_step ?end"
    by blast
  with idle tot have "progress_in_step ?end" by simp
  moreover have "float_mul (int_truediv 2 1) 100 = 200" by code_simp
  ultimately show ?thesis unfolding progress_in_step_def tot len by simp
qed

end
